theory Spec2Isabelle
  imports Complex_Main "HOL-Library.Word"
begin

section \<open>The CacheGen encoder of LMCache\<close>

text \<open>
  A shallow embedding of \<^verbatim>\<open>lmcache/storage_backend/serde/cachegen_encoder.py\<close>.

  Tensors are nested lists, outermost axis first, and the shape of a tensor is read
  along the first elements. A nested list with an empty axis does not record the sizes
  of the axes inside it, so the model is that of the code for tensors all of whose axes
  are non-empty. Devices (\<^verbatim>\<open>.cuda()\<close>, \<^verbatim>\<open>.cpu()\<close>) do not change values and are
  left out.

  Floating-point values are finite rationals or one of the three special values.
  The operations are exact on finite values: the rounding error of a 32-bit float
  product, quotient or sum is not modelled. Division by zero and the propagation of
  NaN are as in IEEE 754 (without signed zeros).
\<close>

subsection \<open>Floating-point values\<close>

datatype fl = Fin rat | PInf | NInf | NaN

text \<open>A finite value divided by a finite value (\<^verbatim>\<open>C / max1\<close>, \<^verbatim>\<open>sum / ntokens\<close>).\<close>

definition fdiv :: "rat \<Rightarrow> rat \<Rightarrow> fl" where
  "fdiv a b =
     (if b \<noteq> 0 then Fin (a / b)
      else if a = 0 then NaN
      else if 0 < a then PInf else NInf)"

fun fmul :: "fl \<Rightarrow> fl \<Rightarrow> fl" where
  "fmul (Fin a) (Fin b) = Fin (a * b)"
| "fmul NaN y = NaN"
| "fmul x NaN = NaN"
| "fmul (Fin a) PInf = (if a = 0 then NaN else if 0 < a then PInf else NInf)"
| "fmul (Fin a) NInf = (if a = 0 then NaN else if 0 < a then NInf else PInf)"
| "fmul PInf (Fin b) = (if b = 0 then NaN else if 0 < b then PInf else NInf)"
| "fmul NInf (Fin b) = (if b = 0 then NaN else if 0 < b then NInf else PInf)"
| "fmul PInf PInf = PInf"
| "fmul PInf NInf = NInf"
| "fmul NInf PInf = NInf"
| "fmul NInf NInf = PInf"

fun fadd :: "fl \<Rightarrow> fl \<Rightarrow> fl" where
  "fadd (Fin a) (Fin b) = Fin (a + b)"
| "fadd NaN y = NaN"
| "fadd x NaN = NaN"
| "fadd PInf NInf = NaN"
| "fadd NInf PInf = NaN"
| "fadd PInf y = PInf"
| "fadd NInf y = NInf"
| "fadd x PInf = PInf"
| "fadd x NInf = NInf"

text \<open>\<^verbatim>\<open>torch.round\<close>: to the nearest integer, a tie to the even one.\<close>

definition round_half_even :: "rat \<Rightarrow> int" where
  "round_half_even x =
     (let f = \<lfloor>x\<rfloor>; d = x - of_int f
      in if d < 1 / 2 then f else if 1 / 2 < d then f + 1 else if even f then f else f + 1)"

fun fround :: "fl \<Rightarrow> fl" where
  "fround (Fin a) = Fin (of_int (round_half_even a))"
| "fround x = x"

text \<open>
  \<^verbatim>\<open>.to(torch.int8)\<close> and \<^verbatim>\<open>.to(torch.int16)\<close> of a float tensor: a finite value is
  truncated towards zero and keeps its low bits (the arithmetic coder reads the 16-bit
  patterns as unsigned). The result for a NaN or an infinity is not fixed by the
  library; it is the parameter \<open>nan\<close> (0 on the usual x86 and CUDA builds).
\<close>

definition trunc_int :: "rat \<Rightarrow> int" where
  "trunc_int q = (if 0 \<le> q then \<lfloor>q\<rfloor> else \<lceil>q\<rceil>)"

fun to_int8 :: "8 word \<Rightarrow> fl \<Rightarrow> 8 word" where
  "to_int8 nan (Fin q) = word_of_int (trunc_int q)"
| "to_int8 nan x = nan"

fun to_int16 :: "16 word \<Rightarrow> fl \<Rightarrow> 16 word" where
  "to_int16 nan (Fin q) = word_of_int (trunc_int q)"
| "to_int16 nan x = nan"

subsection \<open>Shapes of nested lists\<close>

definition shape1 :: "'a list list \<Rightarrow> nat" where
  "shape1 x = (case x of [] \<Rightarrow> 0 | r # _ \<Rightarrow> length r)"

definition shape2 :: "'a list list list \<Rightarrow> nat" where
  "shape2 x = (case x of [] \<Rightarrow> 0 | r # _ \<Rightarrow> shape1 r)"

definition shape3 :: "'a list list list list \<Rightarrow> nat" where
  "shape3 x = (case x of [] \<Rightarrow> 0 | r # _ \<Rightarrow> shape2 r)"

definition shape4 :: "'a list list list list list \<Rightarrow> nat" where
  "shape4 x = (case x of [] \<Rightarrow> 0 | r # _ \<Rightarrow> shape3 r)"

text \<open>\<^verbatim>\<open>x.permute(1, 0)\<close>: the first two axes exchanged.\<close>

definition permute10 :: "'a list list \<Rightarrow> 'a list list" where
  "permute10 x = map (\<lambda>j. map (\<lambda>row. row ! j) x) [0..<shape1 x]"

text \<open>A flat list cut into \<open>n\<close> rows of width \<open>w\<close> (a \<^verbatim>\<open>reshape\<close> to \<open>[n, w]\<close>).\<close>

fun unflatten :: "nat \<Rightarrow> nat \<Rightarrow> 'a list \<Rightarrow> 'a list list" where
  "unflatten 0 w xs = []"
| "unflatten (Suc n) w xs = take w xs # unflatten n w (drop w xs)"

text \<open>A tensor of shape \<open>[L, 2, T, H, D]\<close>.\<close>

definition well_shaped :: "'a list list list list list \<Rightarrow> nat \<Rightarrow> nat \<Rightarrow> nat \<Rightarrow> nat \<Rightarrow> bool" where
  "well_shaped kv L T H D =
     (length kv = L \<and>
      list_all (\<lambda>layer. length layer = 2 \<and>
        list_all (\<lambda>m. length m = T \<and>
          list_all (\<lambda>tok. length tok = H \<and> list_all (\<lambda>h. length h = D) tok) m) layer) kv)"

subsection \<open>The two CDF normalizations\<close>

text \<open>
  \<^verbatim>\<open>cdf.add_(r)\<close> with \<^verbatim>\<open>r = torch.arange(Lp, dtype=torch.int16)\<close>: the ramp is added
  along the last axis, in 16-bit arithmetic.
\<close>

definition add_arange :: "nat \<Rightarrow> 16 word list \<Rightarrow> 16 word list" where
  "add_arange Lp row = map2 (+) row (map word_of_nat [0..<Lp])"

text \<open>\<^verbatim>\<open>_renorm_cast_cdf_(cdf, precision)\<close> on a tensor of shape \<open>[N, C, Lp]\<close>.\<close>

definition renorm_cast_cdf :: "16 word \<Rightarrow> fl list list list \<Rightarrow> nat \<Rightarrow> 16 word list list list" where
  "renorm_cast_cdf nan cdf precision =
     (let Lp = shape2 cdf;
          finals = 1;
          f = (2 :: rat) ^ precision;
          cdf1 = map (map (map (\<lambda>x. fmul x (Fin ((f - of_int (int Lp - 1)) / finals))))) cdf;
          cdf2 = map (map (map fround)) cdf1;
          cdf3 = map (map (map (to_int16 nan))) cdf2
      in map (map (add_arange Lp)) cdf3)"

text \<open>\<^verbatim>\<open>_convert_to_int_and_normalize(cdf_float, needs_normalization)\<close>, same shape.\<close>

definition PRECISION :: nat where
  "PRECISION = 16"

definition convert_to_int_and_normalize ::
  "16 word \<Rightarrow> fl list list list \<Rightarrow> bool \<Rightarrow> 16 word list list list" where
  "convert_to_int_and_normalize nan cdf_float needs_normalization =
     (let Lp = shape2 cdf_float;
          factor = (2 :: rat) ^ PRECISION;
          new_max_value = (if needs_normalization then factor - of_int (int Lp - 1) else factor);
          cdf1 = map (map (map (\<lambda>x. fmul x (Fin new_max_value)))) cdf_float;
          cdf2 = map (map (map fround)) cdf1;
          cdf = map (map (map (to_int16 nan))) cdf2
      in if needs_normalization then map (map (add_arange Lp)) cdf else cdf)"

subsection \<open>Errors and configuration\<close>

text \<open>
  The source raises nothing itself; the exceptions are those of Python and of the tensor
  library: an index out of range (\<^verbatim>\<open>self.fp_k[0]\<close> without layers,
  \<^verbatim>\<open>encode_input[l:l+1, i]\<close> beyond the token axis, a reduction over an empty axis),
  a missing key (\<^verbatim>\<open>max1[i]\<close>) and a runtime error (\<^verbatim>\<open>one_hot\<close> on a class value
  outside \<open>0..num_classes-1\<close>, a \<^verbatim>\<open>reshape\<close> to a shape of another size,
  \<^verbatim>\<open>torch.cat\<close> of no tensor).
\<close>

datatype error = IndexError | KeyError | RuntimeError

text \<open>
  \<^verbatim>\<open>CacheGenConfig\<close> is declared in \<^verbatim>\<open>cachegen_basics\<close>; the encoder reads these
  eight keys of it.
\<close>

record CacheGenConfig =
  key_first_layers :: int
  key_first_bins :: int
  key_second_layers :: int
  key_second_bins :: int
  key_third_bins :: int
  value_first_layers :: int
  value_first_bins :: int
  value_second_bins :: int

subsection \<open>The quantizer\<close>

text \<open>
  \<^verbatim>\<open>torch_quant(bins, qA)\<close> on one layer \<open>qA\<close> of shape \<open>[T, C]\<close>: the quantized
  tensor as 8-bit integers and the row maxima, of shape \<open>[T, 1]\<close>. The entries of
  \<open>qA\<close> are finite.
\<close>

definition amax_abs :: "rat list \<Rightarrow> rat" where
  "amax_abs row = Max (set (map abs row))"

text \<open>\<^verbatim>\<open>torch.amax(torch.abs(qA), dim=-1, keepdim=True)\<close>, of shape \<open>[T, 1]\<close>.\<close>

definition amax_rows :: "rat list list \<Rightarrow> rat list list" where
  "amax_rows qA = map (\<lambda>row. [amax_abs row]) qA"

text \<open>
  \<^verbatim>\<open>torch.round(qA * (C / max1)).to(torch.int8)\<close> on one row, \<open>m\<close> its entry of
  \<open>max1\<close>.
\<close>

definition quant_row :: "8 word \<Rightarrow> int \<Rightarrow> rat list \<Rightarrow> rat list \<Rightarrow> 8 word list" where
  "quant_row nan C row m =
     map (\<lambda>x. to_int8 nan (fround (fmul (Fin x) (fdiv (of_int C) (hd m))))) row"

definition torch_quant :: "8 word \<Rightarrow> int \<Rightarrow> rat list list \<Rightarrow> error + (8 word list list \<times> rat list list)" where
  "torch_quant nan bins qA =
     (let MAX' = bins div 2 - 1;
          C = MAX'
      in if [] \<in> set qA then Inl IndexError
         else
           let max1 = amax_rows qA;
               xq = map2 (quant_row nan C) qA max1
           in Inr (xq, max1))"

text \<open>
  The state of a \<^verbatim>\<open>CacheGenEncoderImpl\<close>. The four dictionaries are association
  lists in insertion order, which is the order \<^verbatim>\<open>.values()\<close> iterates in.
\<close>

record CacheGenEncoderImpl =
  fp_k :: "rat list list list"
  fp_v :: "rat list list list"
  quantized_key :: "(nat \<times> 8 word list list) list"
  max_tensors_key :: "(nat \<times> rat list list) list"
  quantized_value :: "(nat \<times> 8 word list list) list"
  max_tensors_value :: "(nat \<times> rat list list) list"
  config :: CacheGenConfig

definition init_encoder :: "rat list list list \<Rightarrow> rat list list list \<Rightarrow> CacheGenConfig \<Rightarrow> CacheGenEncoderImpl" where
  "init_encoder k v cfg =
     \<lparr>fp_k = k, fp_v = v, quantized_key = [], max_tensors_key = [],
      quantized_value = [], max_tensors_value = [], config = cfg\<rparr>"

text \<open>\<^verbatim>\<open>d[k] = v\<close>: an existing key keeps its place, a new key goes last.\<close>

fun dict_set :: "('k \<times> 'v) list \<Rightarrow> 'k \<Rightarrow> 'v \<Rightarrow> ('k \<times> 'v) list" where
  "dict_set [] k v = [(k, v)]"
| "dict_set (p # ps) k v = (if fst p = k then (k, v) # ps else p # dict_set ps k v)"

definition dict_values :: "('k \<times> 'v) list \<Rightarrow> 'v list" where
  "dict_values d = map snd d"

text \<open>The layer-banded bin counts, as the two loops of \<^verbatim>\<open>quantize\<close> pick them.\<close>

definition key_bins :: "CacheGenConfig \<Rightarrow> nat \<Rightarrow> int" where
  "key_bins cfg layer =
     (if int layer < key_first_layers cfg then key_first_bins cfg
      else if int layer < key_second_layers cfg then key_second_bins cfg
      else key_third_bins cfg)"

definition value_bins :: "CacheGenConfig \<Rightarrow> nat \<Rightarrow> int" where
  "value_bins cfg layer =
     (if int layer < value_first_layers cfg then value_first_bins cfg
      else value_second_bins cfg)"

text \<open>
  \<^verbatim>\<open>tmp[0] + bins // 2 - 1\<close>: an 8-bit tensor plus and minus a Python integer stays
  8-bit.
\<close>

definition shift_symbols :: "int \<Rightarrow> 8 word list list \<Rightarrow> 8 word list list" where
  "shift_symbols bins xq = map (map (\<lambda>s. s + word_of_int (bins div 2) - 1)) xq"

text \<open>What a loop body of \<^verbatim>\<open>quantize\<close> stores for a layer: \<^verbatim>\<open>tmp[0] + bins // 2 - 1\<close>.\<close>

definition layer_symbols :: "8 word \<Rightarrow> int \<Rightarrow> rat list list \<Rightarrow> 8 word list list" where
  "layer_symbols nan bins qA =
     shift_symbols bins (map2 (quant_row nan (bins div 2 - 1)) qA (amax_rows qA))"

fun quantize_keys :: "8 word \<Rightarrow> nat list \<Rightarrow> CacheGenEncoderImpl \<Rightarrow> error + CacheGenEncoderImpl" where
  "quantize_keys nan [] e = Inr e"
| "quantize_keys nan (layer # layers) e =
     (let bins = key_bins (config e) layer
      in case torch_quant nan bins (fp_k e ! layer) of
           Inl err \<Rightarrow> Inl err
         | Inr tmp \<Rightarrow>
             quantize_keys nan layers
               (e\<lparr>quantized_key := dict_set (quantized_key e) layer (shift_symbols bins (fst tmp)),
                  max_tensors_key := dict_set (max_tensors_key e) layer (snd tmp)\<rparr>))"

fun quantize_values :: "8 word \<Rightarrow> nat list \<Rightarrow> CacheGenEncoderImpl \<Rightarrow> error + CacheGenEncoderImpl" where
  "quantize_values nan [] e = Inr e"
| "quantize_values nan (layer # layers) e =
     (let bins = value_bins (config e) layer
      in case torch_quant nan bins (fp_v e ! layer) of
           Inl err \<Rightarrow> Inl err
         | Inr tmp \<Rightarrow>
             quantize_values nan layers
               (e\<lparr>quantized_value := dict_set (quantized_value e) layer (shift_symbols bins (fst tmp)),
                  max_tensors_value := dict_set (max_tensors_value e) layer (snd tmp)\<rparr>))"

definition quantize :: "8 word \<Rightarrow> CacheGenEncoderImpl \<Rightarrow> error + CacheGenEncoderImpl" where
  "quantize nan e =
     (case quantize_keys nan [0..<length (fp_k e)] e of
        Inl err \<Rightarrow> Inl err
      | Inr e1 \<Rightarrow> quantize_values nan [0..<length (fp_v e1)] e1)"

subsection \<open>The CDF estimator\<close>

text \<open>
  \<^verbatim>\<open>torch.nn.functional.one_hot(X.long(), num_classes)\<close> on \<open>X\<close> of shape
  \<open>[C, T]\<close>; it refuses a negative class value and one that is not below
  \<open>num_classes\<close>.
\<close>

definition one_hot :: "int list list \<Rightarrow> nat \<Rightarrow> error + rat list list list" where
  "one_hot X num_classes =
     (if list_ex (list_ex (\<lambda>s. s < 0 \<or> int num_classes \<le> s)) X then Inl RuntimeError
      else Inr (map (map (\<lambda>s. map (\<lambda>a. if s = int a then 1 else 0) [0..<num_classes])) X))"

text \<open>\<^verbatim>\<open>.sum(dim=1)\<close> for one channel: the sum over the tokens, for each class.\<close>

definition sum_tokens :: "nat \<Rightarrow> rat list list \<Rightarrow> rat list" where
  "sum_tokens num_classes hot = map (\<lambda>a. sum_list (map (\<lambda>v. v ! a) hot)) [0..<num_classes]"

fun cumsum_from :: "fl \<Rightarrow> fl list \<Rightarrow> fl list" where
  "cumsum_from acc [] = []"
| "cumsum_from acc (x # xs) = fadd acc x # cumsum_from (fadd acc x) xs"

definition cumsum :: "fl list \<Rightarrow> fl list" where
  "cumsum xs = (case xs of [] \<Rightarrow> [] | x # rest \<Rightarrow> x # cumsum_from x rest)"

text \<open>
  \<^verbatim>\<open>.roll(1)\<close> without \<^verbatim>\<open>dims\<close>: the tensor is flattened, rotated by one place
  towards the end (the last entry comes first) and given its shape back.
\<close>

definition roll1 :: "'a list list \<Rightarrow> 'a list list" where
  "roll1 xss =
     (let flat = concat xss;
          rolled = (if flat = [] then [] else last flat # butlast flat)
      in unflatten (length xss) (shape1 xss) rolled)"

definition process_batch :: "8 word list list \<Rightarrow> nat \<Rightarrow> error + fl list list" where
  "process_batch X max_val =
     (let ntokens = shape1 X
      in case one_hot (map (map sint) X) (max_val + 1) of
           Inl err \<Rightarrow> Inl err
         | Inr hot \<Rightarrow>
             let counts = map (\<lambda>h. map (\<lambda>s. fdiv s (of_nat ntokens)) (sum_tokens (max_val + 1) h)) hot;
                 ret = roll1 (map cumsum counts)
             in Inr (map (\<lambda>r. r[0 := Fin 0]) ret))"

fun process_layers_loop :: "8 word list list list \<Rightarrow> nat \<Rightarrow> fl list list list \<Rightarrow> error + fl list list list" where
  "process_layers_loop [] max_val results = Inr results"
| "process_layers_loop (x # X) max_val results =
     (case process_batch (permute10 x) max_val of
        Inl err \<Rightarrow> Inl err
      | Inr batch_counts \<Rightarrow> process_layers_loop X max_val (results @ [batch_counts]))"

definition process_layers :: "8 word list list list \<Rightarrow> nat \<Rightarrow> error + fl list list" where
  "process_layers X max_val =
     (case process_layers_loop X max_val [] of
        Inl err \<Rightarrow> Inl err
      | Inr results \<Rightarrow> if results = [] then Inl RuntimeError else Inr (concat results))"

text \<open>
  \<^verbatim>\<open>cdfs.reshape((len(self.fp_k), channels, value_range + 1))\<close>: the rows of
  \<open>cdfs\<close> have \<open>value_range + 1\<close> entries each, so the reshape groups them.
\<close>

definition reshape_rows :: "nat \<Rightarrow> nat \<Rightarrow> 'a list list \<Rightarrow> error + 'a list list list" where
  "reshape_rows n c rows =
     (if length rows = n * c then Inr (unflatten n c rows) else Inl RuntimeError)"

definition compute_cdf :: "CacheGenEncoderImpl \<Rightarrow> bool \<Rightarrow> error + fl list list list" where
  "compute_cdf e is_key =
     (case fp_k e of
        [] \<Rightarrow> Inl IndexError
      | k0 # _ \<Rightarrow>
          let channels = shape1 k0;
              tokens = length k0;
              X = (if is_key then dict_values (quantized_key e) else dict_values (quantized_value e));
              value_range = 32
          in case process_layers X value_range of
               Inl err \<Rightarrow> Inl err
             | Inr cdfs \<Rightarrow> reshape_rows (length (fp_k e)) channels cdfs)"



subsection \<open>The facade\<close>

text \<open>
  \<^verbatim>\<open>_split_kv\<close>: a tensor of shape \<open>[L, 2, T, H, D]\<close> is reshaped to
  \<open>[L, 2, T, H * D]\<close> and unbound along axis 1.
\<close>

definition split_kv ::
  "rat list list list list list \<Rightarrow> error + (rat list list list \<times> rat list list list)" where
  "split_kv tensor =
     (if list_all (\<lambda>layer. length layer = 2) tensor
      then Inr (map (\<lambda>layer. map concat (layer ! 0)) tensor,
                map (\<lambda>layer. map concat (layer ! 1)) tensor)
      else Inl RuntimeError)"

text \<open>
  \<^verbatim>\<open>concat_max\<close>: the tensors \<open>max1[0], ..., max1[len(max1) - 1]\<close>, stacked.
\<close>

definition concat_max :: "(nat \<times> 'a) list \<Rightarrow> error + 'a list" where
  "concat_max max1 =
     (if list_ex (\<lambda>i. map_of max1 i = None) [0..<length max1] then Inl KeyError
      else if max1 = [] then Inl RuntimeError
      else Inr (map (\<lambda>i. the (map_of max1 i)) [0..<length max1]))"

text \<open>
  The arithmetic coder \<^verbatim>\<open>torchac.encode_int16_normalized_cdf\<close> is an external
  library: a parameter, from the integer CDF of one slab (\<open>[C, Lp]\<close>) and the
  \<open>C\<close> symbols of one token to bytes.
\<close>

type_synonym coder = "16 word list list \<Rightarrow> 16 word list \<Rightarrow> 8 word list"

text \<open>
  The two nested loops of \<^verbatim>\<open>encode_function\<close>. The state is
  \<open>(current_index, start_indices, bytestreams)\<close>.
\<close>

type_synonym loop_state = "int \<times> int list \<times> 8 word list list"

fun encode_tokens ::
  "coder \<Rightarrow> 16 word list list \<Rightarrow> 8 word list list \<Rightarrow> nat list \<Rightarrow> loop_state \<Rightarrow> error + loop_state" where
  "encode_tokens enc cdf_l input_l [] st = Inr st"
| "encode_tokens enc cdf_l input_l (i # rest) (current_index, starts, bytestreams) =
     (if i < length input_l then
        let bits = enc cdf_l (map scast (input_l ! i));
            len = int (length bits)
        in encode_tokens enc cdf_l input_l rest
             (current_index + len, starts @ [current_index], bytestreams @ [bits])
      else Inl IndexError)"

fun encode_slabs ::
  "coder \<Rightarrow> 16 word list list list \<Rightarrow> 8 word list list list \<Rightarrow> int \<Rightarrow> nat list \<Rightarrow> loop_state \<Rightarrow>
   error + loop_state" where
  "encode_slabs enc cdf_int encode_input csize [] st = Inr st"
| "encode_slabs enc cdf_int encode_input csize (l # rest) st =
     (case encode_tokens enc (cdf_int ! l) (encode_input ! l) [0..<nat csize] st of
        Inl err \<Rightarrow> Inl err
      | Inr st' \<Rightarrow> encode_slabs enc cdf_int encode_input csize rest st')"

text \<open>
  \<^verbatim>\<open>CacheGenEncoderOutput\<close> (declared in \<^verbatim>\<open>cachegen_basics\<close>). The start indices
  are converted to 32-bit integers by \<^verbatim>\<open>.int()\<close>.
\<close>

record CacheGenEncoderOutput =
  bytestream :: "8 word list"
  start_indices :: "32 word list"
  cdf :: "16 word list list list"
  out_max_tensors_key :: "rat list list list"
  out_max_tensors_value :: "rat list list list"
  num_heads :: nat
  head_size :: nat

definition encode_function ::
  "coder \<Rightarrow> 8 word \<Rightarrow> 16 word \<Rightarrow> rat list list list list list \<Rightarrow> CacheGenConfig \<Rightarrow> int \<Rightarrow>
   error + CacheGenEncoderOutput" where
  "encode_function enc nan8 nan16 kv cfg csize =
     (let nheads = shape3 kv; hsize = shape4 kv
      in case split_kv kv of
           Inl err \<Rightarrow> Inl err
         | Inr (k, v) \<Rightarrow>
        (case quantize nan8 (init_encoder k v cfg) of
           Inl err \<Rightarrow> Inl err
         | Inr encoder \<Rightarrow>
        (case compute_cdf encoder True of
           Inl err \<Rightarrow> Inl err
         | Inr cdf_k \<Rightarrow>
        (case compute_cdf encoder False of
           Inl err \<Rightarrow> Inl err
         | Inr cdf_v \<Rightarrow>
        (let encode_input_key = dict_values (quantized_key encoder);
             encode_input_value = dict_values (quantized_value encoder);
             cdf_f = cdf_k @ cdf_v;
             encode_input = encode_input_key @ encode_input_value;
             cdf_int = convert_to_int_and_normalize nan16 cdf_f True
         in case encode_slabs enc cdf_int encode_input csize [0..<length cdf_f] (0, [], []) of
              Inl err \<Rightarrow> Inl err
            | Inr (current_index, starts, bytestreams) \<Rightarrow>
           (case concat_max (max_tensors_key encoder) of
              Inl err \<Rightarrow> Inl err
            | Inr mk \<Rightarrow>
           (case concat_max (max_tensors_value encoder) of
              Inl err \<Rightarrow> Inl err
            | Inr mv \<Rightarrow>
                Inr \<lparr>bytestream = concat bytestreams,
                     start_indices = map word_of_int starts,
                     cdf = renorm_cast_cdf nan16 cdf_f 16,
                     out_max_tensors_key = mk,
                     out_max_tensors_value = mv,
                     num_heads = nheads,
                     head_size = hsize\<rparr>)))))))"

text \<open>
  The same facade when the external coder is not taken to be a function: \<open>R cdf syms
  bits\<close> says that a call of the coder on \<open>cdf\<close> and \<open>syms\<close> may return \<open>bits\<close>. The
  loops are then relations between the state before and the outcome, an error or the
  state after; everything else is as in \<^verbatim>\<open>encode_function\<close>.
\<close>

type_synonym coder_rel = "16 word list list \<Rightarrow> 16 word list \<Rightarrow> 8 word list \<Rightarrow> bool"

inductive encode_tokens_run ::
  "coder_rel \<Rightarrow> 16 word list list \<Rightarrow> 8 word list list \<Rightarrow> nat list \<Rightarrow> loop_state \<Rightarrow>
   error + loop_state \<Rightarrow> bool"
  for R :: coder_rel and cdf_l :: "16 word list list" and input_l :: "8 word list list" where
  tokens_done: "encode_tokens_run R cdf_l input_l [] st (Inr st)"
| tokens_step:
    "i < length input_l \<Longrightarrow> R cdf_l (map scast (input_l ! i)) bits \<Longrightarrow>
     encode_tokens_run R cdf_l input_l rest
       (current_index + int (length bits), starts @ [current_index], bytestreams @ [bits]) res \<Longrightarrow>
     encode_tokens_run R cdf_l input_l (i # rest) (current_index, starts, bytestreams) res"
| tokens_index_error:
    "\<not> i < length input_l \<Longrightarrow>
     encode_tokens_run R cdf_l input_l (i # rest) st (Inl IndexError)"

inductive encode_slabs_run ::
  "coder_rel \<Rightarrow> 16 word list list list \<Rightarrow> 8 word list list list \<Rightarrow> int \<Rightarrow> nat list \<Rightarrow>
   loop_state \<Rightarrow> error + loop_state \<Rightarrow> bool"
  for R :: coder_rel and cdf_int :: "16 word list list list"
    and encode_input :: "8 word list list list" and csize :: int where
  slabs_done: "encode_slabs_run R cdf_int encode_input csize [] st (Inr st)"
| slabs_error:
    "encode_tokens_run R (cdf_int ! l) (encode_input ! l) [0..<nat csize] st (Inl err) \<Longrightarrow>
     encode_slabs_run R cdf_int encode_input csize (l # rest) st (Inl err)"
| slabs_step:
    "encode_tokens_run R (cdf_int ! l) (encode_input ! l) [0..<nat csize] st (Inr st') \<Longrightarrow>
     encode_slabs_run R cdf_int encode_input csize rest st' res \<Longrightarrow>
     encode_slabs_run R cdf_int encode_input csize (l # rest) st res"



text \<open>
  The loop of \<^verbatim>\<open>encode_function_gpu\<close> over the blobs \<^verbatim>\<open>all_bits_cuda\<close> that the
  batched coder returned; the state is \<open>(index, start_indices, bytestreams)\<close>.
\<close>

fun gpu_collect :: "8 word list list \<Rightarrow> loop_state \<Rightarrow> loop_state" where
  "gpu_collect [] st = st"
| "gpu_collect (bits # rest) (index, starts, bytestreams) =
     gpu_collect rest (index + int (length bits), starts @ [index], bytestreams @ [bits])"

subsection \<open>The serializer\<close>




section \<open>Properties\<close>

text \<open>
  C8. The normalization stored in the output, \<^verbatim>\<open>_renorm_cast_cdf_\<close> at precision 16,
  and the normalization handed to the coder, \<^verbatim>\<open>_convert_to_int_and_normalize\<close> with
  \<^verbatim>\<open>needs_normalization = True\<close>, give the same integer tensor on every floating CDF.
\<close>

theorem persistence_cdf_equals_coder_cdf:
  "renorm_cast_cdf nan cdf_float 16 = convert_to_int_and_normalize nan cdf_float True"
  by (simp add: renorm_cast_cdf_def convert_to_int_and_normalize_def PRECISION_def Let_def)

subsection \<open>The offsets of the two facades\<close>

lemma gpu_collect_append:
  "gpu_collect (xs @ ys) st = gpu_collect ys (gpu_collect xs st)"
  by (induction xs st rule: gpu_collect.induct) simp_all

lemma gpu_collect_blobs:
  "snd (snd (gpu_collect bs st)) = snd (snd st) @ bs"
  by (induction bs st rule: gpu_collect.induct) simp_all

lemma encode_tokens_as_gpu_collect:
  "encode_tokens enc cdf_l input_l js st = Inr st' \<Longrightarrow>
   \<exists>bs. length bs = length js \<and> st' = gpu_collect bs st"
proof (induction enc cdf_l input_l js st rule: encode_tokens.induct)
  case (1 enc cdf_l input_l st)
  then show ?case by (auto intro: exI [of _ "[]"])
next
  case (2 enc cdf_l input_l i rest current_index starts bytestreams)
  let ?bits = "enc cdf_l (map scast (input_l ! i))"
  from "2.prems" have inb: "i < length input_l"
    by (simp split: if_splits)
  with "2.prems" have run: "encode_tokens enc cdf_l input_l rest
      (current_index + int (length ?bits), starts @ [current_index], bytestreams @ [?bits]) = Inr st'"
    by (simp add: Let_def)
  from "2.IH" [OF inb refl refl run] obtain bs where
    bs: "length bs = length rest"
      "st' = gpu_collect bs (current_index + int (length ?bits), starts @ [current_index], bytestreams @ [?bits])"
    by blast
  then have "st' = gpu_collect (?bits # bs) (current_index, starts, bytestreams)"
    by simp
  with bs(1) show ?case
    by (intro exI [of _ "?bits # bs"]) simp
qed

lemma encode_slabs_as_gpu_collect:
  "encode_slabs enc cdf_int encode_input csize ls st = Inr st' \<Longrightarrow>
   \<exists>bs. length bs = length ls * nat csize \<and> st' = gpu_collect bs st"
proof (induction ls arbitrary: st)
  case Nil
  then show ?case by (auto intro: exI [of _ "[]"])
next
  case (Cons l ls)
  from Cons.prems obtain st1 where
    s1: "encode_tokens enc (cdf_int ! l) (encode_input ! l) [0..<nat csize] st = Inr st1"
    and s2: "encode_slabs enc cdf_int encode_input csize ls st1 = Inr st'"
    by (auto split: sum.splits)
  from encode_tokens_as_gpu_collect [OF s1] obtain bs1 where
    b1: "length bs1 = nat csize" "st1 = gpu_collect bs1 st" by auto
  from Cons.IH [OF s2] obtain bs2 where
    b2: "length bs2 = length ls * nat csize" "st' = gpu_collect bs2 st1" by auto
  have "st' = gpu_collect (bs1 @ bs2) st"
    using b1 b2 by (simp add: gpu_collect_append)
  moreover have "length (bs1 @ bs2) = length (l # ls) * nat csize"
    using b1 b2 by simp
  ultimately show ?case by blast
qed

text \<open>
  C7, as the code has it. The loop of the "gpu" facade computes the same start indices
  as the loops of the serial facade: run on the blobs the serial loops collected, it
  ends in the same state (the same cumulative index, the same start indices, the same
  blobs). Both record the index before the blob and then advance by its length.
\<close>

theorem gpu_offsets_equal_serial_offsets:
  "encode_slabs enc cdf_int encode_input csize ls (0, [], []) = Inr (current_index, starts, blobs)
   \<Longrightarrow> gpu_collect blobs (0, [], []) = (current_index, starts, blobs)"
proof -
  assume run: "encode_slabs enc cdf_int encode_input csize ls (0, [], []) = Inr (current_index, starts, blobs)"
  from encode_slabs_as_gpu_collect [OF run] obtain bs where
    bs: "(current_index, starts, blobs) = gpu_collect bs (0, [], [])" by auto
  have "snd (snd (gpu_collect bs (0, [], []))) = bs"
    by (simp add: gpu_collect_blobs)
  with bs have "blobs = bs" by (metis snd_conv)
  with bs show ?thesis by simp
qed

theorem gpu_offsets_equal_serial_offsets_witness:
  "encode_slabs (\<lambda>c s. map ucast s) [[[0, 1]]] [[[1, 2], [3, 4]]] 2 [0] (0, [], [])
     = Inr (4, [0, 2], [[1, 2], [3, 4]]) \<and>
   gpu_collect [[1, 2], [3, 4]] (0, [], []) = (4, [0, 2], [[1, 2], [3, 4]])"
proof -
  have run: "encode_slabs (\<lambda>c s. map ucast s) [[[0, 1]]] [[[1, 2], [3, 4]]] 2 [0] (0, [], [])
     = Inr (4, [0, 2], [[1, 2], [3, 4]])"
    by code_simp
  from gpu_offsets_equal_serial_offsets [OF run] run show ?thesis by simp
qed

text \<open>
  C7 as stated (the two loops assign different start indices) fails: on the two blobs
  of lengths 3 and 1 both loops assign the start indices 0 and 3.
\<close>

theorem gpu_offsets_differ_counterexample:
  "encode_slabs (\<lambda>c s. map ucast s) [[[0, 1]], [[0, 1]]] [[[7, 8, 9]], [[5]]] 1 [0, 1] (0, [], [])
     = Inr (4, [0, 3], [[7, 8, 9], [5]]) \<and>
   gpu_collect [[7, 8, 9], [5]] (0, [], []) = (4, [0, 3], [[7, 8, 9], [5]])"
  by code_simp

subsection \<open>The serializer\<close>


subsection \<open>The quantizer\<close>

lemma round_half_even_lower: "of_int a \<le> x \<Longrightarrow> a \<le> round_half_even x"
proof -
  assume "of_int a \<le> x"
  then have "a \<le> \<lfloor>x\<rfloor>" by (simp add: le_floor_iff)
  then show ?thesis by (simp add: round_half_even_def Let_def)
qed

lemma round_half_even_upper: "x \<le> of_int b \<Longrightarrow> round_half_even x \<le> b"
proof -
  assume xb: "x \<le> of_int b"
  show ?thesis
  proof (cases "x = of_int b")
    case True
    then show ?thesis by (simp add: round_half_even_def Let_def)
  next
    case False
    with xb have "x < of_int b" by simp
    then have "\<lfloor>x\<rfloor> < b" by (simp add: floor_less_iff)
    then show ?thesis by (simp add: round_half_even_def Let_def)
  qed
qed

lemma trunc_int_of_int: "trunc_int (of_int z) = z"
  by (simp add: trunc_int_def)

lemma abs_le_amax_abs: "x \<in> set row \<Longrightarrow> \<bar>x\<bar> \<le> amax_abs row"
  by (simp add: amax_abs_def)

lemma amax_abs_nonneg: "row \<noteq> [] \<Longrightarrow> 0 \<le> amax_abs row"
proof -
  assume "row \<noteq> []"
  then obtain x where "x \<in> set row" by (cases row) auto
  then have "\<bar>x\<bar> \<le> amax_abs row" by (rule abs_le_amax_abs)
  then show ?thesis by linarith
qed

lemma amax_abs_zero: "amax_abs row = 0 \<Longrightarrow> x \<in> set row \<Longrightarrow> x = 0"
  using abs_le_amax_abs [of x row] by simp

lemma scaled_bounds:
  fixes x m :: rat
  assumes "\<bar>x\<bar> \<le> m" "m \<noteq> 0" "0 \<le> C"
  shows "- of_int C \<le> x * (of_int C / m)" and "x * (of_int C / m) \<le> of_int C"
proof -
  from assms have mpos: "0 < m" by linarith
  have cn: "(0::rat) \<le> of_int C" using assms(3) by simp
  have "x * (of_int C / m) = (x / m) * of_int C" by simp
  moreover have "x / m \<le> 1" using assms(1) mpos by (simp add: pos_divide_le_eq)
  moreover have "- 1 \<le> x / m" using assms(1) mpos by (simp add: pos_le_divide_eq)
  ultimately show "- of_int C \<le> x * (of_int C / m)" and "x * (of_int C / m) \<le> of_int C"
    using cn mult_right_mono [of "x / m" 1 "of_int C"] mult_right_mono [of "-1" "x / m" "of_int C"]
    by simp_all
qed

lemma quant_symbol_nonzero:
  assumes "x \<in> set row" "amax_abs row \<noteq> 0" "0 \<le> C"
  shows "\<exists>r. to_int8 nan (fround (fmul (Fin x) (fdiv (of_int C) (amax_abs row)))) = word_of_int r
           \<and> - C \<le> r \<and> r \<le> C"
proof -
  let ?m = "amax_abs row"
  let ?r = "round_half_even (x * (of_int C / ?m))"
  have ab: "\<bar>x\<bar> \<le> ?m" using assms(1) by (rule abs_le_amax_abs)
  have "to_int8 nan (fround (fmul (Fin x) (fdiv (of_int C) ?m))) = word_of_int ?r"
    using assms(2) by (simp add: fdiv_def trunc_int_of_int)
  moreover have "- C \<le> ?r"
    using scaled_bounds(1) [OF ab assms(2,3)] round_half_even_lower [of "- C" "x * (of_int C / ?m)"]
    by simp
  moreover have "?r \<le> C"
    using scaled_bounds(2) [OF ab assms(2,3)] by (rule round_half_even_upper)
  ultimately show ?thesis by blast
qed

lemma sint_word8_of_int:
  "- 128 \<le> z \<Longrightarrow> z < 128 \<Longrightarrow> sint (word_of_int z :: 8 word) = z"
  by (simp add: sint_sbintrunc' signed_take_bit_int_eq_self)

lemma shifted_symbol_range:
  assumes "- C \<le> r" "r \<le> C" "C = bins div 2 - 1" "2 \<le> bins" "bins \<le> 33"
  shows "sint (word_of_int r + word_of_int (bins div 2) - 1 :: 8 word) = r + C"
    and "0 \<le> r + C" and "r + C \<le> bins - 1"
proof -
  have eq: "(word_of_int r + word_of_int (bins div 2) - 1 :: 8 word) = word_of_int (r + C)"
    using assms(3) by simp
  have rng: "- (2 ^ 7) \<le> r + C" "r + C < 2 ^ 7" using assms by simp_all
  have "sint (word_of_int (r + C) :: 8 word) = r + C"
    using rng by (intro sint_word8_of_int) simp_all
  with eq show "sint (word_of_int r + word_of_int (bins div 2) - 1 :: 8 word) = r + C"
    by (simp only:)
  show "0 \<le> r + C" using assms by simp
  show "r + C \<le> bins - 1" using assms by linarith
qed

lemma dict_set_fresh: "k \<notin> fst ` set d \<Longrightarrow> dict_set d k v = d @ [(k, v)]"
  by (induction d) auto

lemma torch_quant_eq:
  "torch_quant nan bins qA =
     (if [] \<in> set qA then Inl IndexError
      else Inr (map2 (quant_row nan (bins div 2 - 1)) qA (amax_rows qA), amax_rows qA))"
  by (simp add: torch_quant_def Let_def)

lemma quantize_keys_eq:
  "distinct ls \<Longrightarrow> set ls \<inter> fst ` set (quantized_key e) = {} \<Longrightarrow>
   set ls \<inter> fst ` set (max_tensors_key e) = {} \<Longrightarrow>
   quantize_keys nan ls e =
     (if list_ex (\<lambda>l. [] \<in> set (fp_k e ! l)) ls then Inl IndexError
      else Inr (e\<lparr>quantized_key := quantized_key e @
                       map (\<lambda>l. (l, layer_symbols nan (key_bins (config e) l) (fp_k e ! l))) ls,
                   max_tensors_key := max_tensors_key e @
                       map (\<lambda>l. (l, amax_rows (fp_k e ! l))) ls\<rparr>))"
proof (induction ls arbitrary: e)
  case Nil
  then show ?case by simp
next
  case (Cons l ls)
  show ?case
  proof (cases "[] \<in> set (fp_k e ! l)")
    case True
    then show ?thesis by (simp add: torch_quant_eq Let_def)
  next
    case False
    let ?e1 = "e\<lparr>quantized_key := quantized_key e @ [(l, layer_symbols nan (key_bins (config e) l) (fp_k e ! l))],
                  max_tensors_key := max_tensors_key e @ [(l, amax_rows (fp_k e ! l))]\<rparr>"
    from Cons.prems have fresh: "l \<notin> fst ` set (quantized_key e)" "l \<notin> fst ` set (max_tensors_key e)"
      by auto
    have step: "quantize_keys nan (l # ls) e = quantize_keys nan ls ?e1"
      using False fresh by (simp add: torch_quant_eq Let_def dict_set_fresh layer_symbols_def)
    have d: "distinct ls" using Cons.prems(1) by simp
    have k1: "set ls \<inter> fst ` set (quantized_key ?e1) = {}"
      using Cons.prems(1,2) by auto
    have k2: "set ls \<inter> fst ` set (max_tensors_key ?e1) = {}"
      using Cons.prems(1,3) by auto
    show ?thesis
      unfolding step Cons.IH [OF d k1 k2] using False by simp
  qed
qed

lemma quantize_values_eq:
  "distinct ls \<Longrightarrow> set ls \<inter> fst ` set (quantized_value e) = {} \<Longrightarrow>
   set ls \<inter> fst ` set (max_tensors_value e) = {} \<Longrightarrow>
   quantize_values nan ls e =
     (if list_ex (\<lambda>l. [] \<in> set (fp_v e ! l)) ls then Inl IndexError
      else Inr (e\<lparr>quantized_value := quantized_value e @
                       map (\<lambda>l. (l, layer_symbols nan (value_bins (config e) l) (fp_v e ! l))) ls,
                   max_tensors_value := max_tensors_value e @
                       map (\<lambda>l. (l, amax_rows (fp_v e ! l))) ls\<rparr>))"
proof (induction ls arbitrary: e)
  case Nil
  then show ?case by simp
next
  case (Cons l ls)
  show ?case
  proof (cases "[] \<in> set (fp_v e ! l)")
    case True
    then show ?thesis by (simp add: torch_quant_eq Let_def)
  next
    case False
    let ?e1 = "e\<lparr>quantized_value := quantized_value e @ [(l, layer_symbols nan (value_bins (config e) l) (fp_v e ! l))],
                  max_tensors_value := max_tensors_value e @ [(l, amax_rows (fp_v e ! l))]\<rparr>"
    from Cons.prems have fresh: "l \<notin> fst ` set (quantized_value e)" "l \<notin> fst ` set (max_tensors_value e)"
      by auto
    have step: "quantize_values nan (l # ls) e = quantize_values nan ls ?e1"
      using False fresh by (simp add: torch_quant_eq Let_def dict_set_fresh layer_symbols_def)
    have d: "distinct ls" using Cons.prems(1) by simp
    have k1: "set ls \<inter> fst ` set (quantized_value ?e1) = {}"
      using Cons.prems(1,2) by auto
    have k2: "set ls \<inter> fst ` set (max_tensors_value ?e1) = {}"
      using Cons.prems(1,3) by auto
    show ?thesis
      unfolding step Cons.IH [OF d k1 k2] using False by simp
  qed
qed

lemma quantize_init_eq:
  "quantize nan (init_encoder k v cfg) =
     (if list_ex (\<lambda>l. [] \<in> set (k ! l)) [0..<length k] \<or> list_ex (\<lambda>l. [] \<in> set (v ! l)) [0..<length v]
      then Inl IndexError
      else Inr \<lparr>fp_k = k, fp_v = v,
                quantized_key = map (\<lambda>l. (l, layer_symbols nan (key_bins cfg l) (k ! l))) [0..<length k],
                max_tensors_key = map (\<lambda>l. (l, amax_rows (k ! l))) [0..<length k],
                quantized_value = map (\<lambda>l. (l, layer_symbols nan (value_bins cfg l) (v ! l))) [0..<length v],
                max_tensors_value = map (\<lambda>l. (l, amax_rows (v ! l))) [0..<length v],
                config = cfg\<rparr>)"
proof -
  let ?e = "init_encoder k v cfg"
  have a: "quantize_keys nan [0..<length k] ?e =
     (if list_ex (\<lambda>l. [] \<in> set (k ! l)) [0..<length k] then Inl IndexError
      else Inr (?e\<lparr>quantized_key := map (\<lambda>l. (l, layer_symbols nan (key_bins cfg l) (k ! l))) [0..<length k],
                   max_tensors_key := map (\<lambda>l. (l, amax_rows (k ! l))) [0..<length k]\<rparr>))"
    using quantize_keys_eq [of "[0..<length k]" ?e nan] by (simp add: init_encoder_def)
  let ?e1 = "?e\<lparr>quantized_key := map (\<lambda>l. (l, layer_symbols nan (key_bins cfg l) (k ! l))) [0..<length k],
                   max_tensors_key := map (\<lambda>l. (l, amax_rows (k ! l))) [0..<length k]\<rparr>"
  have b: "quantize_values nan [0..<length v] ?e1 =
     (if list_ex (\<lambda>l. [] \<in> set (v ! l)) [0..<length v] then Inl IndexError
      else Inr (?e1\<lparr>quantized_value := map (\<lambda>l. (l, layer_symbols nan (value_bins cfg l) (v ! l))) [0..<length v],
                   max_tensors_value := map (\<lambda>l. (l, amax_rows (v ! l))) [0..<length v]\<rparr>))"
    using quantize_values_eq [of "[0..<length v]" ?e1 nan] by (simp add: init_encoder_def)
  show ?thesis
    using a b by (simp add: quantize_def init_encoder_def)
qed

lemma map_of_tabulated:
  "map_of (map (\<lambda>i. (i, f i)) xs) l = (if l \<in> set xs then Some (f l) else None)"
  by (induction xs) auto

lemma map_of_enumerated:
  "l < n \<Longrightarrow> map_of (map (\<lambda>i. (i, f i)) [0..<n]) l = Some (f l)"
  by (simp add: map_of_tabulated)

lemma map2_map_same: "map2 f xs (map g xs) = map (\<lambda>x. f x (g x)) xs"
  by (induction xs) simp_all

lemma layer_symbols_eq:
  "layer_symbols nan bins qA =
     map (\<lambda>row. map (\<lambda>x. to_int8 nan (fround (fmul (Fin x) (fdiv (of_int (bins div 2 - 1)) (amax_abs row))))
                          + word_of_int (bins div 2) - 1) row) qA"
  by (simp add: layer_symbols_def shift_symbols_def amax_rows_def map2_map_same quant_row_def)

lemma length_layer_symbols: "length (layer_symbols nan bins qA) = length qA"
  by (simp add: layer_symbols_eq)

lemma length_layer_symbols_row:
  "t < length qA \<Longrightarrow> length (layer_symbols nan bins qA ! t) = length (qA ! t)"
  by (simp add: layer_symbols_eq)

lemma layer_symbols_nth:
  "t < length qA \<Longrightarrow> c < length (qA ! t) \<Longrightarrow>
   layer_symbols nan bins qA ! t ! c =
     to_int8 nan (fround (fmul (Fin (qA ! t ! c)) (fdiv (of_int (bins div 2 - 1)) (amax_abs (qA ! t)))))
       + word_of_int (bins div 2) - 1"
  by (simp add: layer_symbols_eq)

lemma layer_symbols_range:
  assumes t: "t < length qA" and c: "c < length (qA ! t)"
    and nz: "amax_abs (qA ! t) \<noteq> 0" and b: "2 \<le> bins" "bins \<le> 33"
  shows "0 \<le> sint (layer_symbols nan bins qA ! t ! c) \<and>
         sint (layer_symbols nan bins qA ! t ! c) \<le> bins - 1"
proof -
  let ?C = "bins div 2 - 1"
  have C0: "0 \<le> ?C" using b by simp
  have mem: "qA ! t ! c \<in> set (qA ! t)" using c by simp
  from quant_symbol_nonzero [OF mem nz C0, of nan] obtain r where
    r: "to_int8 nan (fround (fmul (Fin (qA ! t ! c)) (fdiv (of_int ?C) (amax_abs (qA ! t))))) = word_of_int r"
       "- ?C \<le> r" "r \<le> ?C"
    by blast
  have "layer_symbols nan bins qA ! t ! c = word_of_int r + word_of_int (bins div 2) - 1"
    using t c r(1) by (simp only: layer_symbols_nth)
  then show ?thesis
    using shifted_symbol_range [OF r(2,3) refl b] by (simp only:)
qed

lemma zero_row_symbol:
  assumes "amax_abs row = 0" "x \<in> set row"
  shows "to_int8 nan (fround (fmul (Fin x) (fdiv (of_int C) (amax_abs row)))) = nan"
proof -
  have "x = 0" using assms by (rule amax_abs_zero)
  then show ?thesis using assms(1) by (simp add: fdiv_def)
qed

lemma layer_symbols_zero_row:
  assumes t: "t < length qA" and z: "amax_abs (qA ! t) = 0"
  shows "layer_symbols nan bins qA ! t =
           replicate (length (qA ! t)) (nan + word_of_int (bins div 2) - 1)"
proof (rule nth_equalityI)
  show "length (layer_symbols nan bins qA ! t) =
        length (replicate (length (qA ! t)) (nan + word_of_int (bins div 2) - 1))"
    using t by (simp add: length_layer_symbols_row)
next
  fix c assume "c < length (layer_symbols nan bins qA ! t)"
  then have c: "c < length (qA ! t)" using t by (simp add: length_layer_symbols_row)
  then have mem: "qA ! t ! c \<in> set (qA ! t)" by simp
  show "layer_symbols nan bins qA ! t ! c =
        replicate (length (qA ! t)) (nan + word_of_int (bins div 2) - 1) ! c"
    using c by (simp only: layer_symbols_nth [OF t c] zero_row_symbol [OF z mem] nth_replicate)
qed

lemma quantize_Inr_fields:
  assumes "quantize nan (init_encoder k v cfg) = Inr e"
  shows "fp_k e = k" "fp_v e = v" "config e = cfg"
    "quantized_key e = map (\<lambda>l. (l, layer_symbols nan (key_bins cfg l) (k ! l))) [0..<length k]"
    "max_tensors_key e = map (\<lambda>l. (l, amax_rows (k ! l))) [0..<length k]"
    "quantized_value e = map (\<lambda>l. (l, layer_symbols nan (value_bins cfg l) (v ! l))) [0..<length v]"
    "max_tensors_value e = map (\<lambda>l. (l, amax_rows (v ! l))) [0..<length v]"
  using assms by (auto simp: quantize_init_eq split: if_splits)

text \<open>
  C1, as the code has it. The quantizer substitutes nothing for a maximum of 0: for a
  row \<open>(layer, token)\<close> whose maximum absolute value is 0, the returned scale is 0, and
  every scaled entry is \<open>0 * (C / 0)\<close>, a NaN. Every symbol of the row is the 8-bit
  cast of NaN shifted by \<open>bins // 2 - 1\<close>: the center symbol \<open>C_max = bins // 2 - 1\<close>
  where the cast of NaN is 0.
\<close>

theorem zero_row_quantization:
  assumes ok: "quantize nan (init_encoder k v cfg) = Inr e"
  shows "(\<forall>l<length k. \<forall>t<length (k ! l). amax_abs (k ! l ! t) = 0 \<longrightarrow>
            (\<exists>q m. map_of (quantized_key e) l = Some q \<and> map_of (max_tensors_key e) l = Some m \<and>
               m ! t = [0] \<and>
               q ! t = replicate (length (k ! l ! t)) (nan + word_of_int (key_bins cfg l div 2) - 1))) \<and>
         (\<forall>l<length v. \<forall>t<length (v ! l). amax_abs (v ! l ! t) = 0 \<longrightarrow>
            (\<exists>q m. map_of (quantized_value e) l = Some q \<and> map_of (max_tensors_value e) l = Some m \<and>
               m ! t = [0] \<and>
               q ! t = replicate (length (v ! l ! t)) (nan + word_of_int (value_bins cfg l div 2) - 1)))"
proof (intro conjI allI impI)
  fix l t assume l: "l < length k" and t: "t < length (k ! l)" and z: "amax_abs (k ! l ! t) = 0"
  have "map_of (quantized_key e) l = Some (layer_symbols nan (key_bins cfg l) (k ! l))"
    using l by (simp add: quantize_Inr_fields(4) [OF ok] map_of_enumerated)
  moreover have "map_of (max_tensors_key e) l = Some (amax_rows (k ! l))"
    using l by (simp add: quantize_Inr_fields(5) [OF ok] map_of_enumerated)
  moreover have "amax_rows (k ! l) ! t = [0]"
    using t z by (simp add: amax_rows_def)
  ultimately show "\<exists>q m. map_of (quantized_key e) l = Some q \<and> map_of (max_tensors_key e) l = Some m \<and>
               m ! t = [0] \<and>
               q ! t = replicate (length (k ! l ! t)) (nan + word_of_int (key_bins cfg l div 2) - 1)"
    using layer_symbols_zero_row [OF t z] by simp
next
  fix l t assume l: "l < length v" and t: "t < length (v ! l)" and z: "amax_abs (v ! l ! t) = 0"
  have "map_of (quantized_value e) l = Some (layer_symbols nan (value_bins cfg l) (v ! l))"
    using l by (simp add: quantize_Inr_fields(6) [OF ok] map_of_enumerated)
  moreover have "map_of (max_tensors_value e) l = Some (amax_rows (v ! l))"
    using l by (simp add: quantize_Inr_fields(7) [OF ok] map_of_enumerated)
  moreover have "amax_rows (v ! l) ! t = [0]"
    using t z by (simp add: amax_rows_def)
  ultimately show "\<exists>q m. map_of (quantized_value e) l = Some q \<and> map_of (max_tensors_value e) l = Some m \<and>
               m ! t = [0] \<and>
               q ! t = replicate (length (v ! l ! t)) (nan + word_of_int (value_bins cfg l div 2) - 1)"
    using layer_symbols_zero_row [OF t z] by simp
qed

theorem zero_row_quantization_witness:
  "quantize 0 (init_encoder [[[0, 0], [1, 2]]] [[[3, - 3], [0, 0]]]
      \<lparr>key_first_layers = 1, key_first_bins = 8, key_second_layers = 2, key_second_bins = 16,
       key_third_bins = 32, value_first_layers = 1, value_first_bins = 8, value_second_bins = 4\<rparr>)
    = Inr \<lparr>fp_k = [[[0, 0], [1, 2]]], fp_v = [[[3, - 3], [0, 0]]],
           quantized_key = [(0, [[3, 3], [5, 6]])], max_tensors_key = [(0, [[0], [2]])],
           quantized_value = [(0, [[6, 0], [3, 3]])], max_tensors_value = [(0, [[3], [0]])],
           config = \<lparr>key_first_layers = 1, key_first_bins = 8, key_second_layers = 2,
             key_second_bins = 16, key_third_bins = 32, value_first_layers = 1,
             value_first_bins = 8, value_second_bins = 4\<rparr>\<rparr> \<and>
   amax_abs ([[[0, 0], [1, 2]]] ! 0 ! 0) = 0 \<and>
   (\<exists>q m. map_of [(0 :: nat, [[3, 3], [5, 6 :: 8 word]])] 0 = Some q \<and>
          map_of [(0 :: nat, [[0], [2 :: rat]])] 0 = Some m \<and> m ! 0 = [0] \<and>
          q ! 0 = replicate 2 (0 + word_of_int (8 div 2) - 1))"
proof -
  let ?cfg = "\<lparr>key_first_layers = 1, key_first_bins = 8, key_second_layers = 2, key_second_bins = 16,
       key_third_bins = 32, value_first_layers = 1, value_first_bins = 8, value_second_bins = 4\<rparr>"
  let ?k = "[[[0, 0], [1, 2 :: rat]]]"
  let ?e = "\<lparr>fp_k = ?k, fp_v = [[[3, - 3], [0, 0]]],
           quantized_key = [(0, [[3, 3], [5, 6]])], max_tensors_key = [(0, [[0], [2]])],
           quantized_value = [(0, [[6, 0], [3, 3]])], max_tensors_value = [(0, [[3], [0]])],
           config = ?cfg\<rparr>"
  have run: "quantize 0 (init_encoder ?k [[[3, - 3], [0, 0]]] ?cfg) = Inr ?e"
    by code_simp
  have l: "0 < length ?k" and t: "0 < length (?k ! 0)" by simp_all
  have z: "amax_abs (?k ! 0 ! 0) = 0"
    by (simp add: amax_abs_def)
  have kb: "key_bins ?cfg 0 = 8" by (simp add: key_bins_def)
  from zero_row_quantization [OF run, THEN conjunct1, rule_format, OF l t z]
  have "\<exists>q m. map_of [(0 :: nat, [[3, 3], [5, 6 :: 8 word]])] 0 = Some q \<and>
          map_of [(0 :: nat, [[0], [2 :: rat]])] 0 = Some m \<and> m ! 0 = [0] \<and>
          q ! 0 = replicate 2 (0 + word_of_int (8 div 2) - 1)"
    unfolding kb by (simp only: CacheGenEncoderImpl.simps length_Cons list.size nth_Cons_0 One_nat_def add_0 numeral_2_eq_2 add_Suc)
  with run z show ?thesis by blast
qed

text \<open>
  C1 as stated (the returned scale of a zero row is 1) fails: \<^verbatim>\<open>torch_quant\<close> returns
  the maximum itself, 0.
\<close>

theorem zero_row_scale_counterexample:
  "\<forall>nan. torch_quant nan 8 [[0, 0, 0]] = Inr ([[nan, nan, nan]], [[0]])"
proof
  fix nan :: "8 word"
  show "torch_quant nan 8 [[0, 0, 0]] = Inr ([[nan, nan, nan]], [[0]])"
    by code_simp
qed

text \<open>
  C2, for bin counts from 2 to 33. After \<^verbatim>\<open>quantize\<close>, when every row of the keys and
  of the values has a non-zero maximum absolute value, every shifted symbol
  \<open>sym[l, t, c]\<close> satisfies \<open>0 \<le> sym \<le> bins(l) - 1\<close>, where \<open>bins(l)\<close> follows the
  layer bands: for keys \<^verbatim>\<open>key_first_bins\<close> below \<^verbatim>\<open>key_first_layers\<close>,
  \<^verbatim>\<open>key_second_bins\<close> below \<^verbatim>\<open>key_second_layers\<close>, \<^verbatim>\<open>key_third_bins\<close> otherwise; for
  values \<^verbatim>\<open>value_first_bins\<close> below \<^verbatim>\<open>value_first_layers\<close>, \<^verbatim>\<open>value_second_bins\<close>
  otherwise. The quantized tensors have the shape of the inputs.
\<close>

theorem quantized_symbols_in_range:
  assumes ok: "quantize nan (init_encoder k v cfg) = Inr e"
    and bins: "\<forall>b \<in> {key_first_bins cfg, key_second_bins cfg, key_third_bins cfg,
                      value_first_bins cfg, value_second_bins cfg}. 2 \<le> b \<and> b \<le> 33"
    and nzk: "\<forall>qA \<in> set k. \<forall>row \<in> set qA. amax_abs row \<noteq> 0"
    and nzv: "\<forall>qA \<in> set v. \<forall>row \<in> set qA. amax_abs row \<noteq> 0"
  shows "(\<forall>l<length k. \<exists>q. map_of (quantized_key e) l = Some q \<and> length q = length (k ! l) \<and>
            (\<forall>t<length (k ! l). length (q ! t) = length (k ! l ! t) \<and>
               (\<forall>c<length (k ! l ! t). 0 \<le> sint (q ! t ! c) \<and>
                  sint (q ! t ! c) \<le>
                    (if int l < key_first_layers cfg then key_first_bins cfg
                     else if int l < key_second_layers cfg then key_second_bins cfg
                     else key_third_bins cfg) - 1))) \<and>
         (\<forall>l<length v. \<exists>q. map_of (quantized_value e) l = Some q \<and> length q = length (v ! l) \<and>
            (\<forall>t<length (v ! l). length (q ! t) = length (v ! l ! t) \<and>
               (\<forall>c<length (v ! l ! t). 0 \<le> sint (q ! t ! c) \<and>
                  sint (q ! t ! c) \<le>
                    (if int l < value_first_layers cfg then value_first_bins cfg
                     else value_second_bins cfg) - 1)))"
proof (intro conjI allI impI)
  fix l assume l: "l < length k"
  let ?b = "key_bins cfg l"
  let ?q = "layer_symbols nan ?b (k ! l)"
  have b: "2 \<le> ?b" "?b \<le> 33" using bins by (auto simp: key_bins_def)
  have lk: "map_of (quantized_key e) l = Some ?q"
    using l by (simp add: quantize_Inr_fields(4) [OF ok] map_of_enumerated)
  have "\<forall>t<length (k ! l). length (?q ! t) = length (k ! l ! t) \<and>
          (\<forall>c<length (k ! l ! t). 0 \<le> sint (?q ! t ! c) \<and> sint (?q ! t ! c) \<le> ?b - 1)"
  proof (intro allI impI conjI)
    fix t assume t: "t < length (k ! l)"
    then show "length (?q ! t) = length (k ! l ! t)" by (rule length_layer_symbols_row)
    fix c assume c: "c < length (k ! l ! t)"
    have "k ! l \<in> set k" "k ! l ! t \<in> set (k ! l)" using l t by simp_all
    then have nz: "amax_abs (k ! l ! t) \<noteq> 0" using nzk by blast
    from layer_symbols_range [OF t c nz b]
    show "0 \<le> sint (?q ! t ! c)" and "sint (?q ! t ! c) \<le> ?b - 1" by simp_all
  qed
  with lk show "\<exists>q. map_of (quantized_key e) l = Some q \<and> length q = length (k ! l) \<and>
            (\<forall>t<length (k ! l). length (q ! t) = length (k ! l ! t) \<and>
               (\<forall>c<length (k ! l ! t). 0 \<le> sint (q ! t ! c) \<and>
                  sint (q ! t ! c) \<le>
                    (if int l < key_first_layers cfg then key_first_bins cfg
                     else if int l < key_second_layers cfg then key_second_bins cfg
                     else key_third_bins cfg) - 1))"
    unfolding key_bins_def [symmetric] by (simp add: length_layer_symbols)
next
  fix l assume l: "l < length v"
  let ?b = "value_bins cfg l"
  let ?q = "layer_symbols nan ?b (v ! l)"
  have b: "2 \<le> ?b" "?b \<le> 33" using bins by (auto simp: value_bins_def)
  have lk: "map_of (quantized_value e) l = Some ?q"
    using l by (simp add: quantize_Inr_fields(6) [OF ok] map_of_enumerated)
  have "\<forall>t<length (v ! l). length (?q ! t) = length (v ! l ! t) \<and>
          (\<forall>c<length (v ! l ! t). 0 \<le> sint (?q ! t ! c) \<and> sint (?q ! t ! c) \<le> ?b - 1)"
  proof (intro allI impI conjI)
    fix t assume t: "t < length (v ! l)"
    then show "length (?q ! t) = length (v ! l ! t)" by (rule length_layer_symbols_row)
    fix c assume c: "c < length (v ! l ! t)"
    have "v ! l \<in> set v" "v ! l ! t \<in> set (v ! l)" using l t by simp_all
    then have nz: "amax_abs (v ! l ! t) \<noteq> 0" using nzv by blast
    from layer_symbols_range [OF t c nz b]
    show "0 \<le> sint (?q ! t ! c)" and "sint (?q ! t ! c) \<le> ?b - 1" by simp_all
  qed
  with lk show "\<exists>q. map_of (quantized_value e) l = Some q \<and> length q = length (v ! l) \<and>
            (\<forall>t<length (v ! l). length (q ! t) = length (v ! l ! t) \<and>
               (\<forall>c<length (v ! l ! t). 0 \<le> sint (q ! t ! c) \<and>
                  sint (q ! t ! c) \<le>
                    (if int l < value_first_layers cfg then value_first_bins cfg
                     else value_second_bins cfg) - 1))"
    unfolding value_bins_def [symmetric] by (simp add: length_layer_symbols)
qed

theorem quantized_symbols_in_range_witness:
  "quantize 0 (init_encoder [[[1, - 2], [3, 0]]] [[[4, 4], [- 1, 0]]]
      \<lparr>key_first_layers = 1, key_first_bins = 8, key_second_layers = 2, key_second_bins = 16,
       key_third_bins = 32, value_first_layers = 1, value_first_bins = 33, value_second_bins = 2\<rparr>)
    = Inr \<lparr>fp_k = [[[1, - 2], [3, 0]]], fp_v = [[[4, 4], [- 1, 0]]],
           quantized_key = [(0, [[5, 0], [6, 3]])], max_tensors_key = [(0, [[2], [3]])],
           quantized_value = [(0, [[30, 30], [0, 15]])], max_tensors_value = [(0, [[4], [1]])],
           config = \<lparr>key_first_layers = 1, key_first_bins = 8, key_second_layers = 2,
             key_second_bins = 16, key_third_bins = 32, value_first_layers = 1,
             value_first_bins = 33, value_second_bins = 2\<rparr>\<rparr> \<and>
   (\<exists>q. map_of [(0 :: nat, [[30, 30], [0, 15 :: 8 word]])] 0 = Some q \<and> length q = 2 \<and>
        (\<forall>t<2. length (q ! t) = length ([[4, 4], [- 1, 0 :: rat]] ! t) \<and>
           (\<forall>c<length ([[4, 4], [- 1, 0 :: rat]] ! t). 0 \<le> sint (q ! t ! c) \<and> sint (q ! t ! c) \<le> (if int 0 < 1 then 33 else 2) - 1)))"
proof -
  let ?cfg = "\<lparr>key_first_layers = 1, key_first_bins = 8, key_second_layers = 2, key_second_bins = 16,
       key_third_bins = 32, value_first_layers = 1, value_first_bins = 33, value_second_bins = 2\<rparr>"
  let ?k = "[[[1, - 2], [3, 0 :: rat]]]"
  let ?v = "[[[4, 4], [- 1, 0 :: rat]]]"
  let ?e = "\<lparr>fp_k = ?k, fp_v = ?v,
           quantized_key = [(0, [[5, 0], [6, 3]])], max_tensors_key = [(0, [[2], [3]])],
           quantized_value = [(0, [[30, 30], [0, 15]])], max_tensors_value = [(0, [[4], [1]])],
           config = ?cfg\<rparr>"
  have run: "quantize 0 (init_encoder ?k ?v ?cfg) = Inr ?e"
    by code_simp
  have bins: "\<forall>b \<in> {key_first_bins ?cfg, key_second_bins ?cfg, key_third_bins ?cfg,
                      value_first_bins ?cfg, value_second_bins ?cfg}. 2 \<le> b \<and> b \<le> 33"
    by simp
  have nzk: "\<forall>qA \<in> set ?k. \<forall>row \<in> set qA. amax_abs row \<noteq> 0"
    by (simp add: amax_abs_def)
  have nzv: "\<forall>qA \<in> set ?v. \<forall>row \<in> set qA. amax_abs row \<noteq> 0"
    by (simp add: amax_abs_def)
  have l: "0 < length ?v" by simp
  from quantized_symbols_in_range [OF run bins nzk nzv, THEN conjunct2, rule_format, OF l]
  have "\<exists>q. map_of [(0 :: nat, [[30, 30], [0, 15 :: 8 word]])] 0 = Some q \<and> length q = 2 \<and>
        (\<forall>t<2. length (q ! t) = length ([[4, 4], [- 1, 0 :: rat]] ! t) \<and>
           (\<forall>c<length ([[4, 4], [- 1, 0 :: rat]] ! t). 0 \<le> sint (q ! t ! c) \<and> sint (q ! t ! c) \<le> (if int 0 < 1 then 33 else 2) - 1))"
    by (simp only: CacheGenEncoderImpl.simps CacheGenConfig.simps length_Cons list.size nth_Cons_0
        One_nat_def add_0 numeral_2_eq_2 add_Suc of_nat_0 zero_less_one if_True)
  with run show ?thesis by blast
qed

text \<open>
  C2 as stated (for every positive bin count up to the alphabet cap) fails at
  \<open>bins = 1\<close>: then \<open>C = 1 // 2 - 1 = -1\<close>, the entry 1 of the row \<open>[1]\<close> is
  quantized to \<open>round(1 * (-1 / 1)) = -1\<close> and shifted to \<open>-1 + 0 - 1 = -2\<close>, below 0.
\<close>

theorem quantized_symbols_below_zero_counterexample:
  "quantize 0 (init_encoder [[[1]]] [[[1]]]
      \<lparr>key_first_layers = 1, key_first_bins = 1, key_second_layers = 2, key_second_bins = 1,
       key_third_bins = 1, value_first_layers = 1, value_first_bins = 1, value_second_bins = 1\<rparr>)
    = Inr \<lparr>fp_k = [[[1]]], fp_v = [[[1]]],
           quantized_key = [(0, [[- 2]])], max_tensors_key = [(0, [[1]])],
           quantized_value = [(0, [[- 2]])], max_tensors_value = [(0, [[1]])],
           config = \<lparr>key_first_layers = 1, key_first_bins = 1, key_second_layers = 2,
             key_second_bins = 1, key_third_bins = 1, value_first_layers = 1,
             value_first_bins = 1, value_second_bins = 1\<rparr>\<rparr> \<and>
   sint (- 2 :: 8 word) = - 2"
  by code_simp

subsection \<open>The offset table\<close>











subsection \<open>Symbols outside the alphabet\<close>

lemma split_kv_shape:
  assumes ws: "well_shaped kv L T H D" and sp: "split_kv kv = Inr (k, v)"
  shows "length k = L" "length v = L"
    "\<forall>qA \<in> set k. length qA = T \<and> (\<forall>row \<in> set qA. length row = H * D)"
    "\<forall>qA \<in> set v. length qA = T \<and> (\<forall>row \<in> set qA. length row = H * D)"
proof -
  have cc: "length (concat tok) = H * D"
    if "length tok = H" "list_all (\<lambda>h. length h = D) tok" for tok :: "'a list list"
  proof -
    have "map length tok = replicate (length tok) D"
      using that(2) by (induction tok) simp_all
    then show ?thesis using that(1) by (simp add: length_concat sum_list_replicate)
  qed
  from sp have k: "k = map (\<lambda>layer. map concat (layer ! 0)) kv"
    and v: "v = map (\<lambda>layer. map concat (layer ! 1)) kv"
    by (auto simp: split_kv_def split: if_splits)
  from ws have L: "length kv = L"
    and lay: "\<And>layer. layer \<in> set kv \<Longrightarrow> length layer = 2 \<and>
        list_all (\<lambda>m. length m = T \<and>
          list_all (\<lambda>tok. length tok = H \<and> list_all (\<lambda>h. length h = D) tok) m) layer"
    by (auto simp: well_shaped_def list_all_iff)
  show "length k = L" "length v = L" using k v L by simp_all
  have m: "length (layer ! i) = T \<and> (\<forall>tok \<in> set (layer ! i). length (concat tok) = H * D)"
    if "layer \<in> set kv" "i < 2" for layer i
  proof -
    from lay [OF that(1)] that(2) have "layer ! i \<in> set layer" by simp
    with lay [OF that(1)] have
      "length (layer ! i) = T \<and> list_all (\<lambda>tok. length tok = H \<and> list_all (\<lambda>h. length h = D) tok) (layer ! i)"
      by (simp add: list_all_iff)
    then show ?thesis using cc by (auto simp: list_all_iff)
  qed
  show "\<forall>qA \<in> set k. length qA = T \<and> (\<forall>row \<in> set qA. length row = H * D)"
    using m [of _ 0] unfolding k by auto
  show "\<forall>qA \<in> set v. length qA = T \<and> (\<forall>row \<in> set qA. length row = H * D)"
    using m [of _ 1] unfolding v by auto
qed

lemma one_hot_error: "one_hot X n = Inl err \<Longrightarrow> err = RuntimeError"
  by (simp add: one_hot_def split: if_splits)

lemma process_batch_error: "process_batch X m = Inl err \<Longrightarrow> err = RuntimeError"
  by (auto simp: process_batch_def Let_def split: sum.splits dest: one_hot_error)

lemma process_layers_loop_error:
  "process_layers_loop X m acc = Inl err \<Longrightarrow> err = RuntimeError"
  by (induction X m acc rule: process_layers_loop.induct)
     (auto split: sum.splits dest: process_batch_error)

lemma compute_cdf_error:
  "fp_k e \<noteq> [] \<Longrightarrow> compute_cdf e b = Inl err \<Longrightarrow> err = RuntimeError"
  by (auto simp: compute_cdf_def process_layers_def reshape_rows_def Let_def
      split: list.splits sum.splits if_splits dest: process_layers_loop_error)

lemma process_batch_bad_symbol:
  assumes "row \<in> set X" "s \<in> set row" "sint s < 0 \<or> int (Suc m) \<le> sint s"
  shows "process_batch X m = Inl RuntimeError"
proof -
  have "list_ex (list_ex (\<lambda>s. s < 0 \<or> int (m + 1) \<le> s)) (map (map sint) X)"
    using assms by (auto simp: list_ex_iff)
  then show ?thesis by (simp add: process_batch_def one_hot_def Let_def)
qed

lemma permute10_keeps_symbol:
  assumes "row \<in> set x" "s \<in> set row" "length row = shape1 x"
  shows "\<exists>col \<in> set (permute10 x). s \<in> set col"
proof -
  from assms(2) obtain j where j: "j < length row" "row ! j = s"
    by (auto simp: in_set_conv_nth)
  have "map (\<lambda>r. r ! j) x \<in> set (permute10 x)"
    using j(1) assms(3) by (auto simp: permute10_def image_iff intro: bexI [of _ j])
  moreover have "s \<in> set (map (\<lambda>r. r ! j) x)"
    using assms(1) j(2) by force
  ultimately show ?thesis by blast
qed

lemma process_layers_loop_bad_symbol:
  assumes "x \<in> set X" "row \<in> set x" "s \<in> set row" "length row = shape1 x"
    "sint s < 0 \<or> int (Suc m) \<le> sint s"
  shows "process_layers_loop X m acc = Inl RuntimeError"
  using assms(1)
proof (induction X arbitrary: acc)
  case Nil
  then show ?case by simp
next
  case (Cons y X)
  show ?case
  proof (cases "process_batch (permute10 y) m")
    case (Inl err)
    then show ?thesis using process_batch_error [OF Inl] by simp
  next
    case (Inr b)
    have "y \<noteq> x"
    proof
      assume "y = x"
      from permute10_keeps_symbol [OF assms(2,3,4)] obtain col where
        "col \<in> set (permute10 x)" "s \<in> set col" by blast
      from process_batch_bad_symbol [OF this assms(5)] Inr \<open>y = x\<close> show False by simp
    qed
    with Cons.prems have "x \<in> set X" by simp
    from Cons.IH [OF this] Inr show ?thesis by simp
  qed
qed

lemma compute_cdf_bad_symbol:
  assumes "fp_k e \<noteq> []"
    and "x \<in> set (if b then dict_values (quantized_key e) else dict_values (quantized_value e))"
    and "row \<in> set x" "s \<in> set row" "length row = shape1 x"
    and "sint s < 0 \<or> 33 \<le> sint s"
  shows "compute_cdf e b = Inl RuntimeError"
proof -
  have "process_layers_loop (if b then dict_values (quantized_key e) else dict_values (quantized_value e)) 32 [] = Inl RuntimeError"
    using assms(2-6) by (intro process_layers_loop_bad_symbol [of x _ row s]) simp_all
  then show ?thesis using assms(1)
    by (cases b) (auto simp: compute_cdf_def process_layers_def Let_def split: list.splits)
qed

lemma layer_symbols_rows:
  assumes "\<forall>row \<in> set qA. length row = n" "x = layer_symbols nan b qA" "row' \<in> set x"
  shows "length row' = shape1 x"
proof -
  have rows: "\<forall>r \<in> set x. length r = n"
    using assms(1,2) by (auto simp: layer_symbols_eq)
  from assms(3) obtain r rs where "x = r # rs" by (cases x) auto
  then have "shape1 x = n" using rows by (simp add: shape1_def)
  with rows assms(3) show ?thesis by simp
qed

text \<open>
  C3, as the code has it. No bin count is checked. What fails is the CDF estimator, when
  a shifted symbol of the keys or of the values is negative or at least 33: then
  \<^verbatim>\<open>one_hot\<close> raises a runtime error and \<^verbatim>\<open>encode_function\<close> returns no output at all.
\<close>

theorem symbol_outside_alphabet_is_fatal:
  assumes ws: "well_shaped kv L T H D"
    and sp: "split_kv kv = Inr (k, v)"
    and qu: "quantize nan8 (init_encoder k v cfg) = Inr e"
    and bad: "\<exists>x \<in> set (dict_values (quantized_key e) @ dict_values (quantized_value e)).
                \<exists>row \<in> set x. \<exists>s \<in> set row. sint s < 0 \<or> 33 \<le> sint s"
  shows "encode_function enc nan8 nan16 kv cfg csize = Inl RuntimeError"
proof -
  note sh = split_kv_shape [OF ws sp]
  note fl = quantize_Inr_fields [OF qu]
  from bad obtain x row s where
    x: "x \<in> set (dict_values (quantized_key e)) \<or> x \<in> set (dict_values (quantized_value e))"
    and row: "row \<in> set x" and s: "s \<in> set row" and out: "sint s < 0 \<or> 33 \<le> sint s"
    by auto
  have rect: "length row = shape1 x" and nonempty: "fp_k e \<noteq> []"
  proof -
    from x consider
      (key) l where "l < length k" "x = layer_symbols nan8 (key_bins cfg l) (k ! l)"
      | (val) l where "l < length v" "x = layer_symbols nan8 (value_bins cfg l) (v ! l)"
      by (auto simp: dict_values_def fl(4,6) comp_def)
    then have "length row = shape1 x \<and> k \<noteq> []"
    proof cases
      case key
      then have "k ! l \<in> set k" by simp
      then have "\<forall>r \<in> set (k ! l). length r = H * D" using sh(3) by blast
      from layer_symbols_rows [OF this key(2) row] key(1) show ?thesis by auto
    next
      case val
      then have "v ! l \<in> set v" by simp
      then have "\<forall>r \<in> set (v ! l). length r = H * D" using sh(4) by blast
      from layer_symbols_rows [OF this val(2) row] val(1) sh(1,2) show ?thesis by auto
    qed
    then show "length row = shape1 x" and "fp_k e \<noteq> []" using fl(1) by simp_all
  qed
  have enc_eq: "encode_function enc nan8 nan16 kv cfg csize =
      (case compute_cdf e True of
         Inl err \<Rightarrow> Inl err
       | Inr cdf_k \<Rightarrow>
          (case compute_cdf e False of
             Inl err \<Rightarrow> Inl err
           | Inr cdf_v \<Rightarrow> encode_function enc nan8 nan16 kv cfg csize))"
    by (simp add: encode_function_def sp qu Let_def split: sum.splits)
  from x show ?thesis
  proof
    assume "x \<in> set (dict_values (quantized_key e))"
    then have "compute_cdf e True = Inl RuntimeError"
      using compute_cdf_bad_symbol [OF nonempty _ row s rect out, of True] by simp
    then show ?thesis by (subst enc_eq) simp
  next
    assume xv: "x \<in> set (dict_values (quantized_value e))"
    then have f: "compute_cdf e False = Inl RuntimeError"
      using compute_cdf_bad_symbol [OF nonempty _ row s rect out, of False] by simp
    show ?thesis
    proof (cases "compute_cdf e True")
      case (Inl err)
      then show ?thesis using compute_cdf_error [OF nonempty Inl] by (subst enc_eq) simp
    next
      case (Inr cdf_k)
      then show ?thesis using f by (subst enc_eq) simp
    qed
  qed
qed

theorem symbol_outside_alphabet_is_fatal_witness:
  "encode_function (\<lambda>c s. map ucast s) 0 0 [[[[[1]]], [[[1]]]]]
      \<lparr>key_first_layers = 1, key_first_bins = 36, key_second_layers = 2, key_second_bins = 34,
       key_third_bins = 34, value_first_layers = 1, value_first_bins = 34, value_second_bins = 34\<rparr> 1
    = Inl RuntimeError \<and>
   sint (34 :: 8 word) = 34"
proof -
  let ?cfg = "\<lparr>key_first_layers = 1, key_first_bins = 36, key_second_layers = 2, key_second_bins = 34,
       key_third_bins = 34, value_first_layers = 1, value_first_bins = 34, value_second_bins = 34\<rparr>"
  let ?kv = "[[[[[1 :: rat]]], [[[1]]]]]"
  let ?e = "\<lparr>fp_k = [[[1]]], fp_v = [[[1]]],
           quantized_key = [(0, [[34]])], max_tensors_key = [(0, [[1]])],
           quantized_value = [(0, [[32]])], max_tensors_value = [(0, [[1]])],
           config = ?cfg\<rparr>"
  have ws: "well_shaped ?kv 1 1 1 1" by (simp add: well_shaped_def)
  have sp: "split_kv ?kv = Inr ([[[1]]], [[[1]]])" by code_simp
  have qu: "quantize 0 (init_encoder [[[1]]] [[[1]]] ?cfg) = Inr ?e" by code_simp
  have s34: "sint (34 :: 8 word) = 34" by simp
  have bad: "\<exists>x \<in> set (dict_values (quantized_key ?e) @ dict_values (quantized_value ?e)).
                \<exists>row \<in> set x. \<exists>s \<in> set row. sint s < 0 \<or> 33 \<le> sint s"
    by (simp add: dict_values_def)
  from symbol_outside_alphabet_is_fatal [OF ws sp qu bad] s34 show ?thesis by simp
qed

text \<open>
  C3 as stated (a bin count of 34 is refused before any byte is produced) fails: with
  every bin count 34 and the single entry \<open>-1\<close> for the key and for the value,
  \<open>C = 34 // 2 - 1 = 16\<close>, both symbols are \<open>-16 + 16 = 0\<close>, the estimator accepts
  them and the encoding succeeds, with the bytes that the coder returns (here a coder
  that writes each symbol as one byte).
\<close>

theorem bins_34_is_encoded_counterexample:
  "encode_function (\<lambda>c s. map ucast s) 0 0 [[[[[- 1]]], [[[- 1]]]]]
      \<lparr>key_first_layers = 1, key_first_bins = 34, key_second_layers = 2, key_second_bins = 34,
       key_third_bins = 34, value_first_layers = 1, value_first_bins = 34, value_second_bins = 34\<rparr> 1
    = Inr \<lparr>bytestream = [0, 0], start_indices = [0, 1],
        cdf =
          [[[0, 65505, 65506, 65507, 65508, 65509, 65510, 65511, 65512,
             65513, 65514, 65515, 65516, 65517, 65518, 65519, 65520, 65521,
             65522, 65523, 65524, 65525, 65526, 65527, 65528, 65529, 65530,
             65531, 65532, 65533, 65534, 65535, 0]],
           [[0, 65505, 65506, 65507, 65508, 65509, 65510, 65511, 65512,
             65513, 65514, 65515, 65516, 65517, 65518, 65519, 65520, 65521,
             65522, 65523, 65524, 65525, 65526, 65527, 65528, 65529, 65530,
             65531, 65532, 65533, 65534, 65535, 0]]],
        out_max_tensors_key = [[[1]]], out_max_tensors_value = [[[1]]],
        num_heads = 1, head_size = 1\<rparr>"
  by code_simp

subsection \<open>The CDF estimator\<close>

























subsection \<open>Determinism\<close>








subsection \<open>The CDF normalizer\<close>

lemma round_half_even_between:
  "\<lfloor>x\<rfloor> \<le> round_half_even x \<and> round_half_even x \<le> \<lfloor>x\<rfloor> + 1"
  by (simp add: round_half_even_def Let_def)

lemma round_half_even_mono:
  assumes "x \<le> y"
  shows "round_half_even x \<le> round_half_even y"
proof (cases "\<lfloor>x\<rfloor> < \<lfloor>y\<rfloor>")
  case True
  then show ?thesis
    using round_half_even_between [of x] round_half_even_between [of y] by linarith
next
  case False
  moreover have "\<lfloor>x\<rfloor> \<le> \<lfloor>y\<rfloor>" using assms by (rule floor_mono)
  ultimately have eq: "\<lfloor>x\<rfloor> = \<lfloor>y\<rfloor>" by simp
  then have "x - of_int \<lfloor>x\<rfloor> \<le> y - of_int \<lfloor>y\<rfloor>" using assms by simp
  then show ?thesis using eq
    by (auto simp: round_half_even_def Let_def)
qed

lemma round_half_even_0: "round_half_even 0 = 0"
  by (simp add: round_half_even_def)

lemma add_arange_nth:
  "length row = Lp \<Longrightarrow> i < Lp \<Longrightarrow> add_arange Lp row ! i = row ! i + word_of_nat i"
  by (simp add: add_arange_def)

lemma length_add_arange: "length row = Lp \<Longrightarrow> length (add_arange Lp row) = Lp"
  by (simp add: add_arange_def)

lemma normalized_row:
  assumes n: "n < length cdf_float" and c: "c < length (cdf_float ! n)"
    and Lp: "shape2 cdf_float = Lp"
    and row: "cdf_float ! n ! c = map Fin qs" and len: "length qs = Lp"
  shows "convert_to_int_and_normalize nan cdf_float True ! n ! c =
           map (\<lambda>i. word_of_int (round_half_even (qs ! i * (65536 - of_int (int Lp - 1))) + int i))
             [0..<Lp]"
proof (rule nth_equalityI)
  let ?M = "65536 - of_int (int Lp - 1) :: rat"
  let ?row = "map (to_int16 nan) (map fround (map (\<lambda>x. fmul x (Fin ?M)) (cdf_float ! n ! c)))"
  have res: "convert_to_int_and_normalize nan cdf_float True ! n ! c = add_arange Lp ?row"
    using n c by (simp add: convert_to_int_and_normalize_def Let_def Lp PRECISION_def)
  have lrow: "length ?row = Lp" using row len by simp
  show "length (convert_to_int_and_normalize nan cdf_float True ! n ! c) =
        length (map (\<lambda>i. word_of_int (round_half_even (qs ! i * ?M) + int i) :: 16 word) [0..<Lp])"
    using res length_add_arange [OF lrow] by simp
  fix i assume "i < length (convert_to_int_and_normalize nan cdf_float True ! n ! c)"
  then have i: "i < Lp" using res length_add_arange [OF lrow] by simp
  have "?row ! i = word_of_int (round_half_even (qs ! i * ?M))"
    using i row len by (simp add: trunc_int_of_int)
  then have "add_arange Lp ?row ! i = word_of_int (round_half_even (qs ! i * ?M)) + word_of_nat i"
    using add_arange_nth [OF lrow i] by simp
  then show "convert_to_int_and_normalize nan cdf_float True ! n ! c ! i =
        map (\<lambda>i. word_of_int (round_half_even (qs ! i * ?M) + int i)) [0..<Lp] ! i"
    using res i by simp
qed

lemma unat_word16_of_int:
  "0 \<le> z \<Longrightarrow> z < 65536 \<Longrightarrow> unat (word_of_int z :: 16 word) = nat z"
  by (simp add: unat_eq_nat_uint uint_word_of_int take_bit_eq_mod)

text \<open>
  What the normalizer does guarantee: when the last entry of a row rounds below
  \<open>2^16 - (Lp - 1)\<close>, the normalized row, read as unsigned 16-bit integers, starts at
  0, is strictly increasing and ends at most at \<open>2^16 - 1\<close>.
\<close>
lemma normalized_row_guarantees:
  assumes n: "n < length cdf_float" and c: "c < length (cdf_float ! n)"
    and Lp: "shape2 cdf_float = Lp" "1 \<le> Lp" "Lp \<le> 65536"
    and row: "cdf_float ! n ! c = map Fin qs" and len: "length qs = Lp"
    and sorted: "sorted qs" and rng: "\<forall>q \<in> set qs. 0 \<le> q \<and> q < 1" and first: "qs ! 0 = 0"
    and last: "round_half_even (qs ! (Lp - 1) * (65536 - of_int (int Lp - 1))) < 65536 - (int Lp - 1)"
  shows "unat (convert_to_int_and_normalize nan cdf_float True ! n ! c ! 0) = 0"
    and "\<forall>i j. i < j \<and> j < Lp \<longrightarrow>
           unat (convert_to_int_and_normalize nan cdf_float True ! n ! c ! i) <
           unat (convert_to_int_and_normalize nan cdf_float True ! n ! c ! j)"
    and "unat (convert_to_int_and_normalize nan cdf_float True ! n ! c ! (Lp - 1)) \<le> 65535"
proof -
  let ?M = "65536 - of_int (int Lp - 1) :: rat"
  let ?z = "\<lambda>i. round_half_even (qs ! i * ?M)"
  let ?r = "convert_to_int_and_normalize nan cdf_float True ! n ! c"
  have Mpos: "0 < ?M" using Lp(3) by simp
  have r: "?r ! i = word_of_int (?z i + int i)" if "i < Lp" for i
    using normalized_row [OF n c Lp(1) row len, of nan] that by simp
  have zmono: "?z i \<le> ?z j" if "i \<le> j" "j < Lp" for i j
  proof -
    have "qs ! i \<le> qs ! j" using sorted that len by (simp add: sorted_iff_nth_mono)
    then have "qs ! i * ?M \<le> qs ! j * ?M" using Mpos by (simp add: mult_right_mono)
    then show ?thesis by (rule round_half_even_mono)
  qed
  have z0: "0 \<le> ?z i" if "i < Lp" for i
  proof -
    have "0 \<le> qs ! i" using rng that len by simp
    then have "of_int 0 \<le> qs ! i * ?M" using Mpos by simp
    then show ?thesis by (rule round_half_even_lower)
  qed
  have zlt: "?z i + int i < 65536" if "i < Lp" for i
  proof -
    have "?z i \<le> ?z (Lp - 1)" using that by (intro zmono) simp_all
    then show ?thesis using last that by linarith
  qed
  have u: "unat (?r ! i) = nat (?z i + int i)" if "i < Lp" for i
    using r [OF that] z0 [OF that] zlt [OF that] by (simp only: unat_word16_of_int)
  have "unat (?r ! 0) = nat (?z 0 + int 0)" using u [of 0] Lp(2) by simp
  then show "unat (?r ! 0) = 0" using first by (simp add: round_half_even_0)
  show "\<forall>i j. i < j \<and> j < Lp \<longrightarrow> unat (?r ! i) < unat (?r ! j)"
  proof (intro allI impI)
    fix i j assume ij: "i < j \<and> j < Lp"
    then have "?z i \<le> ?z j" by (intro zmono) simp_all
    moreover have "0 \<le> ?z i" using ij by (intro z0) simp
    ultimately have "nat (?z i + int i) < nat (?z j + int j)" using ij by linarith
    then show "unat (?r ! i) < unat (?r ! j)" using u ij by simp
  qed
  have "nat (?z (Lp - 1) + int (Lp - 1)) \<le> 65535"
    using zlt [of "Lp - 1"] Lp(2) by simp
  then show "unat (?r ! (Lp - 1)) \<le> 65535" using u [of "Lp - 1"] Lp(2) by simp
qed

text \<open>
  C5 at a failing input. The row \<open>[0, 1 - 2^-20]\<close> is non-decreasing, starts at 0 and
  has its entries in \<open>[0, 1)\<close>; with \<open>Lp = 2\<close> the second entry is multiplied by
  65535, rounds to 65535 and becomes 65536 with the ramp, which is 0 in 16 bits. The
  normalized row is \<open>[0, 0]\<close>: not strictly increasing.
\<close>

theorem normalizer_wraps_near_one:
  "convert_to_int_and_normalize nan [[[Fin 0, Fin (1048575 / 1048576)]]] True = [[[0, 0]]]"
  by code_simp

end
